theory Spec2Isabelle
  imports Complex_Main
begin

section \<open>The geocoder of import-long-lat.py\<close>

text \<open>
  The class \<open>MultiAPIGeocoder\<close> resolves a postcode through two web services,
  postcodes.io (index 0) and Nominatim (index 1). Its attributes are the index of
  the service to try first and three dicts keyed by the service index.

  A dict is a map; \<open>d[k]\<close> is \<open>the (d k)\<close>, which is meaningful for a key of the
  dict only (Python raises KeyError otherwise). \<open>__init__\<close> creates the keys 0 and 1
  and nothing ever adds or removes a key.

  The network is not part of the model. What a service answers is an input of the
  model, classified by the path that the request function takes through its
  \<open>try\<close> block. The field \<open>trace\<close> is not an attribute of the Python object: it
  records, in order, every call of a request function and every \<open>time.sleep\<close>, so
  that statements about which service was asked, and when, can be written down.
  Logging has no effect on the state and is left out.
\<close>

type_synonym coords = "real \<times> real"

datatype response =
    Raises        \<comment> \<open>an exception before the failure count is reset: \<open>session.get\<close>,
                      \<open>raise_for_status\<close>, \<open>response.json\<close>, or the test of the payload\<close>
  | No_match      \<comment> \<open>\<open>data\<close> is empty (Nominatim) or its status is not 200 (postcodes.io)\<close>
  | Bad_match     \<comment> \<open>a match is reported, but building the pair of floats raises
                      (after the failure count was reset)\<close>
  | Match coords  \<comment> \<open>a match; the pair returned is not empty, so \<open>if coords\<close> holds\<close>

datatype event = Request int | Sleep real

record geocoder =
  current_api :: int
  request_counts :: "int \<rightharpoonup> nat"
  failure_counts :: "int \<rightharpoonup> nat"
  api_disabled :: "int \<rightharpoonup> bool"
  trace :: "event list"

text \<open>\<open>__init__\<close>: the loop over \<open>range(2)\<close> fills the three dicts.\<close>

definition init :: geocoder where
  "init =
     fold (\<lambda>i g. g\<lparr>request_counts := (request_counts g)(i \<mapsto> 0),
                      failure_counts := (failure_counts g)(i \<mapsto> 0),
                      api_disabled := (api_disabled g)(i \<mapsto> False)\<rparr>)
       [0, 1]
       \<lparr>current_api = 0, request_counts = Map.empty, failure_counts = Map.empty,
        api_disabled = Map.empty, trace = []\<rparr>"

definition sleep :: "real \<Rightarrow> geocoder \<Rightarrow> geocoder" where
  "sleep d g = g\<lparr>trace := trace g @ [Sleep d]\<rparr>"

subsection \<open>The request functions\<close>

text \<open>
  \<open>geocode_nominatim\<close>. The \<open>except\<close> block adds one to the failure count of
  index 1 and disables the service once the count is 5 or more. The reset of the
  count stands before the conversion of the coordinates, inside the \<open>try\<close>.
\<close>

definition nominatim_except :: "geocoder \<Rightarrow> geocoder" where
  "nominatim_except g =
     (let g1 = g\<lparr>failure_counts := (failure_counts g)(1 \<mapsto> the (failure_counts g 1) + 1)\<rparr>
      in if the (failure_counts g1 1) \<ge> 5
         then g1\<lparr>api_disabled := (api_disabled g1)(1 \<mapsto> True)\<rparr>
         else g1)"

definition geocode_nominatim :: "response \<Rightarrow> geocoder \<Rightarrow> coords option \<times> geocoder" where
  "geocode_nominatim r g0 =
     (let g = g0\<lparr>trace := trace g0 @ [Request 1]\<rparr>
      in case r of
           Raises \<Rightarrow> (None, nominatim_except g)
         | No_match \<Rightarrow> (None, g)
         | Bad_match \<Rightarrow>
             (None, nominatim_except (g\<lparr>failure_counts := (failure_counts g)(1 \<mapsto> 0)\<rparr>))
         | Match c \<Rightarrow> (Some c, g\<lparr>failure_counts := (failure_counts g)(1 \<mapsto> 0)\<rparr>))"

text \<open>\<open>geocode_postcodes_io\<close>: the same, for index 0.\<close>

definition postcodes_io_except :: "geocoder \<Rightarrow> geocoder" where
  "postcodes_io_except g =
     (let g1 = g\<lparr>failure_counts := (failure_counts g)(0 \<mapsto> the (failure_counts g 0) + 1)\<rparr>
      in if the (failure_counts g1 0) \<ge> 5
         then g1\<lparr>api_disabled := (api_disabled g1)(0 \<mapsto> True)\<rparr>
         else g1)"

definition geocode_postcodes_io :: "response \<Rightarrow> geocoder \<Rightarrow> coords option \<times> geocoder" where
  "geocode_postcodes_io r g0 =
     (let g = g0\<lparr>trace := trace g0 @ [Request 0]\<rparr>
      in case r of
           Raises \<Rightarrow> (None, postcodes_io_except g)
         | No_match \<Rightarrow> (None, g)
         | Bad_match \<Rightarrow>
             (None, postcodes_io_except (g\<lparr>failure_counts := (failure_counts g)(0 \<mapsto> 0)\<rparr>))
         | Match c \<Rightarrow> (Some c, g\<lparr>failure_counts := (failure_counts g)(0 \<mapsto> 0)\<rparr>))"

subsection \<open>\<open>geocode_postcode\<close>\<close>

text \<open>
  The argument \<open>resp\<close> gives, for this call, what each service answers if it is
  asked: \<open>resp 0\<close> for postcodes.io and \<open>resp 1\<close> for Nominatim. The body of the
  method is split into its blocks, in the order of the source.

  Both services disabled: both are enabled again and both failure counts reset.
\<close>

definition reenable :: "geocoder \<Rightarrow> geocoder" where
  "reenable g =
     (if the (api_disabled g 0) \<and> the (api_disabled g 1)
      then g\<lparr>api_disabled := (api_disabled g)(0 \<mapsto> False, 1 \<mapsto> False),
             failure_counts := (failure_counts g)(0 \<mapsto> 0, 1 \<mapsto> 0)\<rparr>
      else g)"

text \<open>Which service to try first: the pair \<open>(primary_api, fallback_api)\<close>.\<close>

definition api_order :: "geocoder \<Rightarrow> int \<times> int" where
  "api_order g =
     (let primary_api = current_api g;
          fallback_api = 1 - current_api g
      in if the (api_disabled g primary_api)
         then (fallback_api, primary_api)
         else (primary_api, fallback_api))"

text \<open>A successful request: count it, set the service to try first next time.\<close>

definition succeeded :: "int \<Rightarrow> int \<Rightarrow> geocoder \<Rightarrow> geocoder" where
  "succeeded i next_api g =
     g\<lparr>request_counts := (request_counts g)(i \<mapsto> the (request_counts g i) + 1),
       current_api := next_api\<rparr>"

text \<open>
  The primary attempt. A result \<open>Some c\<close> is the \<open>return coords\<close> of the source;
  \<open>None\<close> means that control falls through to the fallback attempt.
\<close>

definition try_primary :: "(int \<Rightarrow> response) \<Rightarrow> int \<Rightarrow> geocoder \<Rightarrow> coords option \<times> geocoder" where
  "try_primary resp primary_api g =
     (if \<not> the (api_disabled g primary_api) then
        if primary_api = 0 then
          (case geocode_postcodes_io (resp 0) g of
             (Some c, g1) \<Rightarrow> (Some c, sleep 0.1 (succeeded 0 1 g1))
           | (None, g1) \<Rightarrow> (None, g1))
        else
          (case geocode_nominatim (resp 1) g of
             (Some c, g1) \<Rightarrow> (Some c, sleep 0.7 (succeeded 1 0 g1))
           | (None, g1) \<Rightarrow> (None, g1))
      else (None, g))"

text \<open>The fallback attempt. Nominatim is asked after a pause of 0.7 seconds.\<close>

definition try_fallback :: "(int \<Rightarrow> response) \<Rightarrow> int \<Rightarrow> geocoder \<Rightarrow> coords option \<times> geocoder" where
  "try_fallback resp fallback_api g =
     (if \<not> the (api_disabled g fallback_api) then
        if fallback_api = 0 then
          (case geocode_postcodes_io (resp 0) g of
             (Some c, g1) \<Rightarrow> (Some c, sleep 0.1 (succeeded 0 1 g1))
           | (None, g1) \<Rightarrow> (None, g1))
        else
          (case geocode_nominatim (resp 1) (sleep 0.7 g) of
             (Some c, g1) \<Rightarrow> (Some c, sleep 0.4 (succeeded 1 0 g1))
           | (None, g1) \<Rightarrow> (None, g1))
      else (None, g))"

definition geocode_postcode :: "(int \<Rightarrow> response) \<Rightarrow> geocoder \<Rightarrow> coords option \<times> geocoder" where
  "geocode_postcode resp g =
     (let g1 = reenable g;
          (primary_api, fallback_api) = api_order g1
      in case try_primary resp primary_api g1 of
           (Some c, g2) \<Rightarrow> (Some c, g2)
         | (None, g2) \<Rightarrow>
             (case try_fallback resp fallback_api g2 of
                (Some c, g3) \<Rightarrow> (Some c, g3)
              | (None, g3) \<Rightarrow> (None, g3\<lparr>current_api := 1 - current_api g3\<rparr>)))"

text \<open>A run of calls, as \<open>process_postcodes\<close> makes them, one per postcode.\<close>

fun run :: "(int \<Rightarrow> response) list \<Rightarrow> geocoder \<Rightarrow> geocoder" where
  "run [] g = g"
| "run (resp # rs) g = run rs (snd (geocode_postcode resp g))"

text \<open>The states that a geocoder can be in: after \<open>__init__\<close> and any number of calls.\<close>

inductive reachable :: "geocoder \<Rightarrow> bool" where
  reachable_init: "reachable init"
| reachable_call: "reachable g \<Longrightarrow> reachable (snd (geocode_postcode resp g))"

text \<open>What one call appends to the trace.\<close>

definition call_events :: "(int \<Rightarrow> response) \<Rightarrow> geocoder \<Rightarrow> event list" where
  "call_events resp g = drop (length (trace g)) (trace (snd (geocode_postcode resp g)))"

text \<open>The services asked, in order.\<close>

fun requests :: "event list \<Rightarrow> int list" where
  "requests [] = []"
| "requests (Request i # es) = i # requests es"
| "requests (Sleep d # es) = requests es"

text \<open>The attributes are in order: the index is 0 or 1 and the dicts have the keys 0 and 1.\<close>

definition well_formed :: "geocoder \<Rightarrow> bool" where
  "well_formed g \<longleftrightarrow> (current_api g = 0 \<or> current_api g = 1)
     \<and> dom (request_counts g) = {0, 1}
     \<and> dom (failure_counts g) = {0, 1}
     \<and> dom (api_disabled g) = {0, 1}"

subsection \<open>Notions used in the statements\<close>

text \<open>What a request function returns: coordinates for a match, \<open>None\<close> otherwise.\<close>

fun outcome :: "response \<Rightarrow> coords option" where
  "outcome (Match c) = Some c"
| "outcome Raises = None"
| "outcome No_match = None"
| "outcome Bad_match = None"

text \<open>Two ways to write down what the services answer in one call.\<close>

definition always :: "response \<Rightarrow> int \<Rightarrow> response" where
  "always r i = r"

definition answers :: "response \<Rightarrow> response \<Rightarrow> int \<Rightarrow> response" where
  "answers r0 r1 i = (if i = 0 then r0 else r1)"

text \<open>What a run of calls appends to the trace.\<close>

definition run_events :: "(int \<Rightarrow> response) list \<Rightarrow> geocoder \<Rightarrow> event list" where
  "run_events rs g = drop (length (trace g)) (trace (run rs g))"

text \<open>No call of the run starts with both services disabled.\<close>

fun no_reset :: "(int \<Rightarrow> response) list \<Rightarrow> geocoder \<Rightarrow> bool" where
  "no_reset [] g = True"
| "no_reset (resp # rs) g =
     (\<not> (the (api_disabled g 0) \<and> the (api_disabled g 1))
      \<and> no_reset rs (snd (geocode_postcode resp g)))"

text \<open>
  Every request to Nominatim in a list of events comes directly after a pause of at
  least \<open>d\<close> seconds. A request at the head of the list has nothing before it.
\<close>

fun pause_before :: "real \<Rightarrow> event list \<Rightarrow> bool" where
  "pause_before d [] = True"
| "pause_before d (Request i # es) = (i \<noteq> 1 \<and> pause_before d es)"
| "pause_before d (Sleep t # Request i # es) = ((i = 1 \<longrightarrow> d \<le> t) \<and> pause_before d es)"
| "pause_before d (Sleep t # es) = pause_before d es"

text \<open>
  The failure counts and the flags agree: a count is at most 5, and a service is
  disabled exactly when its count is 5.
\<close>

definition counts_ok :: "geocoder \<Rightarrow> bool" where
  "counts_ok g \<longleftrightarrow>
     the (failure_counts g 0) \<le> 5 \<and> (the (api_disabled g 0) \<longleftrightarrow> the (failure_counts g 0) = 5) \<and>
     the (failure_counts g 1) \<le> 5 \<and> (the (api_disabled g 1) \<longleftrightarrow> the (failure_counts g 1) = 5)"


section \<open>Properties\<close>

subsection \<open>The request functions, field by field\<close>

lemmas request_defs = geocode_nominatim_def geocode_postcodes_io_def nominatim_except_def
  postcodes_io_except_def
lemmas call_defs = geocode_postcode_def reenable_def api_order_def try_primary_def
  try_fallback_def succeeded_def sleep_def

lemma wf_api: "well_formed g \<Longrightarrow> current_api g = 0 \<or> current_api g = 1"
  by (simp add: well_formed_def)

lemma case_result:
  "(case p of (Some c, s) \<Rightarrow> A c s | (None, s) \<Rightarrow> B s)
     = (case fst p of Some c \<Rightarrow> A c (snd p) | None \<Rightarrow> B (snd p))"
  by (cases p; cases "fst p") auto

lemma nominatim_fst: "fst (geocode_nominatim r g) = outcome r"
  by (cases r) (simp_all add: request_defs Let_def)

lemma nominatim_fields:
  "trace (snd (geocode_nominatim r g)) = trace g @ [Request 1]"
  "current_api (snd (geocode_nominatim r g)) = current_api g"
  "request_counts (snd (geocode_nominatim r g)) = request_counts g"
  "failure_counts (snd (geocode_nominatim r g)) 0 = failure_counts g 0"
  "api_disabled (snd (geocode_nominatim r g)) 0 = api_disabled g 0"
  by (cases r; simp add: request_defs Let_def)+

lemma nominatim_count:
  "the (failure_counts (snd (geocode_nominatim r g)) 1) =
     (case r of Raises \<Rightarrow> the (failure_counts g 1) + 1 | No_match \<Rightarrow> the (failure_counts g 1)
      | Bad_match \<Rightarrow> 1 | Match c \<Rightarrow> 0)"
  by (cases r) (simp_all add: request_defs Let_def)

lemma nominatim_disabled:
  "the (api_disabled (snd (geocode_nominatim r g)) 1) \<longleftrightarrow>
     the (api_disabled g 1) \<or> (r = Raises \<and> 4 \<le> the (failure_counts g 1))"
  by (cases r) (simp_all add: request_defs Let_def)

lemma nominatim_dom:
  "1 \<in> dom (failure_counts g) \<Longrightarrow> dom (failure_counts (snd (geocode_nominatim r g))) = dom (failure_counts g)"
  "1 \<in> dom (api_disabled g) \<Longrightarrow> dom (api_disabled (snd (geocode_nominatim r g))) = dom (api_disabled g)"
  by (cases r; auto simp: request_defs Let_def)+

lemma postcodes_io_fst: "fst (geocode_postcodes_io r g) = outcome r"
  by (cases r) (simp_all add: request_defs Let_def)

lemma postcodes_io_fields:
  "trace (snd (geocode_postcodes_io r g)) = trace g @ [Request 0]"
  "current_api (snd (geocode_postcodes_io r g)) = current_api g"
  "request_counts (snd (geocode_postcodes_io r g)) = request_counts g"
  "failure_counts (snd (geocode_postcodes_io r g)) 1 = failure_counts g 1"
  "api_disabled (snd (geocode_postcodes_io r g)) 1 = api_disabled g 1"
  by (cases r; simp add: request_defs Let_def)+

lemma postcodes_io_count:
  "the (failure_counts (snd (geocode_postcodes_io r g)) 0) =
     (case r of Raises \<Rightarrow> the (failure_counts g 0) + 1 | No_match \<Rightarrow> the (failure_counts g 0)
      | Bad_match \<Rightarrow> 1 | Match c \<Rightarrow> 0)"
  by (cases r) (simp_all add: request_defs Let_def)

lemma postcodes_io_disabled:
  "the (api_disabled (snd (geocode_postcodes_io r g)) 0) \<longleftrightarrow>
     the (api_disabled g 0) \<or> (r = Raises \<and> 4 \<le> the (failure_counts g 0))"
  by (cases r) (simp_all add: request_defs Let_def)

lemma postcodes_io_dom:
  "0 \<in> dom (failure_counts g) \<Longrightarrow> dom (failure_counts (snd (geocode_postcodes_io r g))) = dom (failure_counts g)"
  "0 \<in> dom (api_disabled g) \<Longrightarrow> dom (api_disabled (snd (geocode_postcodes_io r g))) = dom (api_disabled g)"
  by (cases r; auto simp: request_defs Let_def)+

lemmas request_simps = case_result nominatim_fst nominatim_fields nominatim_count
  nominatim_disabled postcodes_io_fst postcodes_io_fields postcodes_io_count postcodes_io_disabled

lemma try_primary_disabled:
  "the (api_disabled g p) \<Longrightarrow> try_primary resp p g = (None, g)"
  by (simp add: try_primary_def)

lemma try_primary_0:
  "\<not> the (api_disabled g 0) \<Longrightarrow> try_primary resp 0 g =
     (case outcome (resp 0) of
        Some c \<Rightarrow> (Some c, sleep 0.1 (succeeded 0 1 (snd (geocode_postcodes_io (resp 0) g))))
      | None \<Rightarrow> (None, snd (geocode_postcodes_io (resp 0) g)))"
  by (simp add: try_primary_def case_result postcodes_io_fst)

lemma try_primary_1:
  "\<not> the (api_disabled g 1) \<Longrightarrow> try_primary resp 1 g =
     (case outcome (resp 1) of
        Some c \<Rightarrow> (Some c, sleep 0.7 (succeeded 1 0 (snd (geocode_nominatim (resp 1) g))))
      | None \<Rightarrow> (None, snd (geocode_nominatim (resp 1) g)))"
  by (simp add: try_primary_def case_result nominatim_fst)

lemma try_fallback_disabled:
  "the (api_disabled g f) \<Longrightarrow> try_fallback resp f g = (None, g)"
  by (simp add: try_fallback_def)

lemma try_fallback_0:
  "\<not> the (api_disabled g 0) \<Longrightarrow> try_fallback resp 0 g =
     (case outcome (resp 0) of
        Some c \<Rightarrow> (Some c, sleep 0.1 (succeeded 0 1 (snd (geocode_postcodes_io (resp 0) g))))
      | None \<Rightarrow> (None, snd (geocode_postcodes_io (resp 0) g)))"
  by (simp add: try_fallback_def case_result postcodes_io_fst)

lemma try_fallback_1:
  "\<not> the (api_disabled g 1) \<Longrightarrow> try_fallback resp 1 g =
     (case outcome (resp 1) of
        Some c \<Rightarrow> (Some c, sleep 0.4 (succeeded 1 0 (snd (geocode_nominatim (resp 1) (sleep 0.7 g)))))
      | None \<Rightarrow> (None, snd (geocode_nominatim (resp 1) (sleep 0.7 g))))"
  by (simp add: try_fallback_def case_result nominatim_fst)

lemma sleep_fields:
  "trace (sleep d g) = trace g @ [Sleep d]"
  "current_api (sleep d g) = current_api g"
  "request_counts (sleep d g) = request_counts g"
  "failure_counts (sleep d g) = failure_counts g"
  "api_disabled (sleep d g) = api_disabled g"
  by (simp_all add: sleep_def)

lemma succeeded_fields:
  "trace (succeeded i n g) = trace g"
  "current_api (succeeded i n g) = n"
  "request_counts (succeeded i n g) = (request_counts g)(i \<mapsto> the (request_counts g i) + 1)"
  "failure_counts (succeeded i n g) = failure_counts g"
  "api_disabled (succeeded i n g) = api_disabled g"
  by (simp_all add: succeeded_def)

text \<open>The rest of the call, after the services were enabled again.\<close>

lemma geocode_postcode_first_0:
  assumes "current_api (reenable g) = 0" "\<not> the (api_disabled (reenable g) 0)"
  shows "geocode_postcode resp g =
    (case outcome (resp 0) of
       Some c \<Rightarrow> (Some c, sleep 0.1 (succeeded 0 1 (snd (geocode_postcodes_io (resp 0) (reenable g)))))
     | None \<Rightarrow>
        (if the (api_disabled (reenable g) 1)
         then (None, (snd (geocode_postcodes_io (resp 0) (reenable g)))\<lparr>current_api := 1\<rparr>)
         else case outcome (resp 1) of
           Some c \<Rightarrow> (Some c, sleep 0.4 (succeeded 1 0 (snd (geocode_nominatim (resp 1)
                        (sleep 0.7 (snd (geocode_postcodes_io (resp 0) (reenable g))))))))
         | None \<Rightarrow> (None, (snd (geocode_nominatim (resp 1)
                        (sleep 0.7 (snd (geocode_postcodes_io (resp 0) (reenable g))))))\<lparr>current_api := 1\<rparr>)))"
  using assms
  by (simp add: geocode_postcode_def api_order_def try_primary_0 try_fallback_disabled
      try_fallback_1 postcodes_io_fields nominatim_fields sleep_fields split: option.split)

lemma geocode_postcode_swap_1:
  assumes "current_api (reenable g) = 0" "the (api_disabled (reenable g) 0)"
    "\<not> the (api_disabled (reenable g) 1)"
  shows "geocode_postcode resp g =
    (case outcome (resp 1) of
       Some c \<Rightarrow> (Some c, sleep 0.7 (succeeded 1 0 (snd (geocode_nominatim (resp 1) (reenable g)))))
     | None \<Rightarrow> (None, (snd (geocode_nominatim (resp 1) (reenable g)))\<lparr>current_api := 1\<rparr>))"
  using assms
  by (simp add: geocode_postcode_def api_order_def try_primary_1 try_fallback_disabled
      postcodes_io_fields nominatim_fields sleep_fields split: option.split)

lemma geocode_postcode_first_1:
  assumes "current_api (reenable g) = 1" "\<not> the (api_disabled (reenable g) 1)"
  shows "geocode_postcode resp g =
    (case outcome (resp 1) of
       Some c \<Rightarrow> (Some c, sleep 0.7 (succeeded 1 0 (snd (geocode_nominatim (resp 1) (reenable g)))))
     | None \<Rightarrow>
        (if the (api_disabled (reenable g) 0)
         then (None, (snd (geocode_nominatim (resp 1) (reenable g)))\<lparr>current_api := 0\<rparr>)
         else case outcome (resp 0) of
           Some c \<Rightarrow> (Some c, sleep 0.1 (succeeded 0 1 (snd (geocode_postcodes_io (resp 0)
                        (snd (geocode_nominatim (resp 1) (reenable g)))))))
         | None \<Rightarrow> (None, (snd (geocode_postcodes_io (resp 0)
                        (snd (geocode_nominatim (resp 1) (reenable g)))))\<lparr>current_api := 0\<rparr>)))"
  using assms
  by (simp add: geocode_postcode_def api_order_def try_primary_1 try_fallback_disabled
      try_fallback_0 postcodes_io_fields nominatim_fields sleep_fields split: option.split)

lemma geocode_postcode_swap_0:
  assumes "current_api (reenable g) = 1" "the (api_disabled (reenable g) 1)"
    "\<not> the (api_disabled (reenable g) 0)"
  shows "geocode_postcode resp g =
    (case outcome (resp 0) of
       Some c \<Rightarrow> (Some c, sleep 0.1 (succeeded 0 1 (snd (geocode_postcodes_io (resp 0) (reenable g)))))
     | None \<Rightarrow> (None, (snd (geocode_postcodes_io (resp 0) (reenable g)))\<lparr>current_api := 0\<rparr>))"
  using assms
  by (simp add: geocode_postcode_def api_order_def try_primary_0 try_fallback_disabled
      postcodes_io_fields nominatim_fields sleep_fields split: option.split)

lemma reenable_fields:
  "trace (reenable g) = trace g"
  "current_api (reenable g) = current_api g"
  "request_counts (reenable g) = request_counts g"
  by (simp_all add: reenable_def)

lemma reenable_not_both:
  "\<not> (the (api_disabled (reenable g) 0) \<and> the (api_disabled (reenable g) 1))"
  by (simp add: reenable_def)

lemma reenable_id:
  "\<not> (the (api_disabled g 0) \<and> the (api_disabled g 1)) \<Longrightarrow> reenable g = g"
  by (auto simp: reenable_def)

lemma reenable_both:
  assumes "the (api_disabled g 0)" "the (api_disabled g 1)"
  shows "api_disabled (reenable g) 0 = Some False" "api_disabled (reenable g) 1 = Some False"
    "failure_counts (reenable g) 0 = Some 0" "failure_counts (reenable g) 1 = Some 0"
  using assms by (simp_all add: reenable_def)

lemma call_cases [consumes 1, case_names first_0 swap_1 first_1 swap_0]:
  assumes "current_api g = 0 \<or> current_api g = 1"
    and "\<lbrakk>current_api (reenable g) = 0; \<not> the (api_disabled (reenable g) 0)\<rbrakk> \<Longrightarrow> Q"
    and "\<lbrakk>current_api (reenable g) = 0; the (api_disabled (reenable g) 0);
          \<not> the (api_disabled (reenable g) 1)\<rbrakk> \<Longrightarrow> Q"
    and "\<lbrakk>current_api (reenable g) = 1; \<not> the (api_disabled (reenable g) 1)\<rbrakk> \<Longrightarrow> Q"
    and "\<lbrakk>current_api (reenable g) = 1; the (api_disabled (reenable g) 1);
          \<not> the (api_disabled (reenable g) 0)\<rbrakk> \<Longrightarrow> Q"
  shows Q
  using assms reenable_not_both [of g] by (auto simp: reenable_fields)

lemmas state_simps = postcodes_io_fields nominatim_fields sleep_fields succeeded_fields
  reenable_fields

lemmas call_simps = geocode_postcode_first_0 geocode_postcode_swap_1 geocode_postcode_first_1
  geocode_postcode_swap_0

lemma reenable_dom:
  "dom (failure_counts g) = {0, 1} \<Longrightarrow> dom (failure_counts (reenable g)) = {0, 1}"
  "dom (api_disabled g) = {0, 1} \<Longrightarrow> dom (api_disabled (reenable g)) = {0, 1}"
  by (auto simp: reenable_def)

lemma wf_reenable: "well_formed g \<Longrightarrow> well_formed (reenable g)"
  by (simp add: well_formed_def reenable_dom reenable_fields)

lemma wf_nominatim: "well_formed g \<Longrightarrow> well_formed (snd (geocode_nominatim r g))"
  by (simp add: well_formed_def nominatim_dom nominatim_fields)

lemma wf_postcodes_io: "well_formed g \<Longrightarrow> well_formed (snd (geocode_postcodes_io r g))"
  by (simp add: well_formed_def postcodes_io_dom postcodes_io_fields)

lemma wf_sleep: "well_formed g \<Longrightarrow> well_formed (sleep d g)"
  by (simp add: well_formed_def sleep_fields)

lemma wf_succeeded: "well_formed g \<Longrightarrow> i = 0 \<or> i = 1 \<Longrightarrow> n = 0 \<or> n = 1 \<Longrightarrow> well_formed (succeeded i n g)"
  by (auto simp: well_formed_def succeeded_fields)

lemma wf_current: "well_formed g \<Longrightarrow> n = 0 \<or> n = 1 \<Longrightarrow> well_formed (g\<lparr>current_api := n\<rparr>)"
  by (simp add: well_formed_def)

lemmas wf_simps = wf_reenable wf_nominatim wf_postcodes_io wf_sleep wf_succeeded wf_current

lemma wf_call: 
  assumes "well_formed g" shows "well_formed (snd (geocode_postcode resp g))"
proof -
  have "current_api g = 0 \<or> current_api g = 1" using assms by (rule wf_api)
  then show ?thesis using assms
    by (cases rule: call_cases) (simp_all add: call_simps wf_simps split: option.split)
qed

lemma counts_ok_reenable: "counts_ok g \<Longrightarrow> counts_ok (reenable g)"
  by (simp add: counts_ok_def reenable_def)

lemma counts_ok_nominatim:
  "counts_ok g \<Longrightarrow> \<not> the (api_disabled g 1) \<Longrightarrow> counts_ok (snd (geocode_nominatim r g))"
  by (cases r) (auto simp: counts_ok_def nominatim_fields nominatim_count nominatim_disabled)

lemma counts_ok_postcodes_io:
  "counts_ok g \<Longrightarrow> \<not> the (api_disabled g 0) \<Longrightarrow> counts_ok (snd (geocode_postcodes_io r g))"
  by (cases r) (auto simp: counts_ok_def postcodes_io_fields postcodes_io_count postcodes_io_disabled)

lemma counts_ok_other:
  "counts_ok g \<Longrightarrow> counts_ok (sleep d g)"
  "counts_ok g \<Longrightarrow> counts_ok (succeeded i n g)"
  "counts_ok g \<Longrightarrow> counts_ok (g\<lparr>current_api := n\<rparr>)"
  by (simp_all add: counts_ok_def sleep_fields succeeded_fields)

lemmas counts_ok_simps = counts_ok_nominatim counts_ok_postcodes_io counts_ok_other

lemma counts_ok_call:
  assumes "current_api g = 0 \<or> current_api g = 1" "counts_ok g"
  shows "counts_ok (snd (geocode_postcode resp g))"
proof -
  have ok: "counts_ok (reenable g)" using assms(2) by (rule counts_ok_reenable)
  show ?thesis using assms(1) ok
    by (cases rule: call_cases)
       (simp_all add: call_simps counts_ok_simps state_simps split: option.split)
qed

lemma reachable_ok: "reachable g \<Longrightarrow> well_formed g \<and> counts_ok g"
proof (induction rule: reachable.induct)
  case reachable_init
  show ?case by (auto simp: well_formed_def counts_ok_def init_def)
next
  case (reachable_call g resp)
  then show ?case by (simp add: wf_call counts_ok_call wf_api)
qed

subsection \<open>What one call appends to the trace\<close>

lemma call_events_first_0:
  assumes "current_api (reenable g) = 0" "\<not> the (api_disabled (reenable g) 0)"
  shows "call_events resp g =
    (case outcome (resp 0) of
       Some c \<Rightarrow> [Request 0, Sleep 0.1]
     | None \<Rightarrow>
        (if the (api_disabled (reenable g) 1) then [Request 0]
         else case outcome (resp 1) of
           Some c \<Rightarrow> [Request 0, Sleep 0.7, Request 1, Sleep 0.4]
         | None \<Rightarrow> [Request 0, Sleep 0.7, Request 1]))"
  using assms
  by (simp add: call_events_def geocode_postcode_first_0 state_simps split: option.split)

lemma call_events_swap_1:
  assumes "current_api (reenable g) = 0" "the (api_disabled (reenable g) 0)"
    "\<not> the (api_disabled (reenable g) 1)"
  shows "call_events resp g =
    (case outcome (resp 1) of Some c \<Rightarrow> [Request 1, Sleep 0.7] | None \<Rightarrow> [Request 1])"
  using assms
  by (simp add: call_events_def geocode_postcode_swap_1 state_simps split: option.split)

lemma call_events_first_1:
  assumes "current_api (reenable g) = 1" "\<not> the (api_disabled (reenable g) 1)"
  shows "call_events resp g =
    (case outcome (resp 1) of
       Some c \<Rightarrow> [Request 1, Sleep 0.7]
     | None \<Rightarrow>
        (if the (api_disabled (reenable g) 0) then [Request 1]
         else case outcome (resp 0) of
           Some c \<Rightarrow> [Request 1, Request 0, Sleep 0.1]
         | None \<Rightarrow> [Request 1, Request 0]))"
  using assms
  by (simp add: call_events_def geocode_postcode_first_1 state_simps split: option.split)

lemma call_events_swap_0:
  assumes "current_api (reenable g) = 1" "the (api_disabled (reenable g) 1)"
    "\<not> the (api_disabled (reenable g) 0)"
  shows "call_events resp g =
    (case outcome (resp 0) of Some c \<Rightarrow> [Request 0, Sleep 0.1] | None \<Rightarrow> [Request 0])"
  using assms
  by (simp add: call_events_def geocode_postcode_swap_0 state_simps split: option.split)

lemmas events_simps = call_events_first_0 call_events_swap_1 call_events_first_1
  call_events_swap_0


lemma outcome_Some: "outcome r = Some c \<longleftrightarrow> r = Match c"
  by (cases r) auto

lemmas eval_defs = init_def geocode_postcode_def reenable_def api_order_def try_primary_def
  try_fallback_def succeeded_def sleep_def geocode_nominatim_def geocode_postcodes_io_def
  nominatim_except_def postcodes_io_except_def always_def answers_def call_events_def
  run_events_def Let_def

lemma well_formed_init: "well_formed init"
  by (auto simp: well_formed_def init_def)

subsection \<open>Runs of calls\<close>


lemma wf_run: "well_formed g \<Longrightarrow> well_formed (run rs g)"
  by (induction rs arbitrary: g) (simp_all add: wf_call)


lemma reachable_run: "reachable g \<Longrightarrow> reachable (run rs g)"
  by (induction rs arbitrary: g) (simp_all add: reachable_call)






text \<open>A disabled service stays disabled as long as no call starts with both disabled.\<close>

lemma disabled_step:
  assumes "current_api g = 0 \<or> current_api g = 1" "P = 0 \<or> P = 1" "the (api_disabled g P)"
    "\<not> (the (api_disabled g 0) \<and> the (api_disabled g 1))"
  shows "the (api_disabled (snd (geocode_postcode resp g)) P)"
proof -
  have id: "reenable g = g" using assms(4) by (rule reenable_id)
  from assms(1) assms(2,3,4) show ?thesis
    by (cases rule: call_cases)
      (auto simp: id call_simps state_simps nominatim_disabled postcodes_io_disabled
        split: option.split)
qed

lemma disabled_run:
  assumes "well_formed g" "P = 0 \<or> P = 1" "the (api_disabled g P)" "no_reset rs g"
  shows "the (api_disabled (run rs g) P)"
  using assms
proof (induction rs arbitrary: g)
  case Nil
  then show ?case by simp
next
  case (Cons resp rs)
  have "the (api_disabled (snd (geocode_postcode resp g)) P)"
    using Cons.prems by (intro disabled_step wf_api) simp_all
  then show ?case
    using Cons.prems by (simp add: Cons.IH wf_call)
qed

text \<open>In one call a service is asked at most once, and a disabled one is not asked.\<close>

lemma asked_once:
  assumes "current_api g = 0 \<or> current_api g = 1"
  shows "count_list (requests (call_events resp g)) P \<le> 1"
  using assms
  by (cases rule: call_cases) (simp_all add: events_simps split: option.split)

lemma disabled_not_asked:
  assumes "current_api g = 0 \<or> current_api g = 1" "P = 0 \<or> P = 1" "the (api_disabled g P)"
    "\<not> (the (api_disabled g 0) \<and> the (api_disabled g 1))"
  shows "P \<notin> set (requests (call_events resp g))"
proof -
  have id: "reenable g = g" using assms(4) by (rule reenable_id)
  from assms(1) assms(2,3,4) show ?thesis
    by (cases rule: call_cases) (auto simp: id events_simps split: option.split)
qed

lemma no_match_fields:
  "failure_counts (snd (geocode_nominatim No_match g)) = failure_counts g"
  "api_disabled (snd (geocode_nominatim No_match g)) = api_disabled g"
  "failure_counts (snd (geocode_postcodes_io No_match g)) = failure_counts g"
  "api_disabled (snd (geocode_postcodes_io No_match g)) = api_disabled g"
  by (simp_all add: request_defs)

text \<open>
  A reported match whose coordinates do not convert: the count was reset before the
  conversion, so the \<open>except\<close> block leaves it at 1, whatever it was before.
\<close>

lemma bad_match_restarts_count:
  "the (failure_counts (snd (geocode_nominatim Bad_match g)) 1) = 1"
  "the (failure_counts (snd (geocode_postcodes_io Bad_match g)) 0) = 1"
  by (simp_all add: nominatim_count postcodes_io_count)

lemma raises_other_key:
  "api_disabled (snd (geocode_nominatim r g)) 0 = api_disabled g 0"
  "failure_counts (snd (geocode_nominatim r g)) 0 = failure_counts g 0"
  "api_disabled (snd (geocode_postcodes_io r g)) 1 = api_disabled g 1"
  "failure_counts (snd (geocode_postcodes_io r g)) 1 = failure_counts g 1"
  by (simp_all add: state_simps)

text \<open>
  Where the call pauses for Nominatim. With postcodes.io as the primary service, a
  request to Nominatim is the fallback attempt and comes directly after a pause of
  0.7 seconds. With Nominatim as the primary service, the request to it is the first
  event of the call; a pause of 0.7 seconds follows if it returns coordinates.
\<close>

lemma nominatim_pauses:
  assumes "well_formed g"
  shows "(fst (api_order (reenable g)) = 0 \<longrightarrow> pause_before 0.7 (call_events resp g))
    \<and> (fst (api_order (reenable g)) = 1 \<longrightarrow>
         (\<exists>es. call_events resp g = Request 1 # es)
         \<and> (\<forall>c. resp 1 = Match c \<longrightarrow> call_events resp g = [Request 1, Sleep 0.7]))"
proof -
  have "current_api g = 0 \<or> current_api g = 1" using assms by (rule wf_api)
  then show ?thesis
    by (cases rule: call_cases)
      (auto simp: events_simps api_order_def split: option.split)
qed

section \<open>The claims\<close>




text \<open>
  C2. A call that starts with both services disabled first sets both flags to False
  and both failure counts to 0, without touching the trace, and is from there on the
  call made in that state: same result, same final state, same requests and pauses.
  The service named by \<open>current_api\<close> is then the first one asked.
\<close>

theorem both_disabled_recovery:
  assumes "the (api_disabled g 0)" "the (api_disabled g 1)"
  shows "reenable g = g\<lparr>api_disabled := (api_disabled g)(0 \<mapsto> False, 1 \<mapsto> False),
                        failure_counts := (failure_counts g)(0 \<mapsto> 0, 1 \<mapsto> 0)\<rparr>
    \<and> trace (reenable g) = trace g
    \<and> geocode_postcode resp g =
        geocode_postcode resp
          (g\<lparr>api_disabled := (api_disabled g)(0 \<mapsto> False, 1 \<mapsto> False),
             failure_counts := (failure_counts g)(0 \<mapsto> 0, 1 \<mapsto> 0)\<rparr>)
    \<and> (current_api g = 0 \<or> current_api g = 1
        \<longrightarrow> (\<exists>es. call_events resp g = Request (current_api g) # es))"
proof -
  have r: "reenable g = g\<lparr>api_disabled := (api_disabled g)(0 \<mapsto> False, 1 \<mapsto> False),
                        failure_counts := (failure_counts g)(0 \<mapsto> 0, 1 \<mapsto> 0)\<rparr>"
    using assms by (simp add: reenable_def)
  have "reenable (reenable g) = reenable g"
    by (simp add: reenable_def)
  then have e: "geocode_postcode resp g = geocode_postcode resp (reenable g)"
    by (simp add: geocode_postcode_def)
  have f: "\<exists>es. call_events resp g = Request (current_api g) # es"
    if "current_api g = 0 \<or> current_api g = 1"
    using that reenable_both [OF assms]
    by (cases rule: call_cases) (auto simp: events_simps reenable_fields split: option.split)
  show ?thesis using r e f by (simp add: reenable_fields)
qed

theorem both_disabled_recovery_witness:
  "the (api_disabled
      (run [always Raises, always Raises, always Raises, always Raises, always Raises] init) 0)
   \<and> the (api_disabled
      (run [always Raises, always Raises, always Raises, always Raises, always Raises] init) 1)
   \<and> call_events (answers (Match (51.5010, -0.1419)) Raises)
        (run [always Raises, always Raises, always Raises, always Raises, always Raises] init)
       = [Request 1, Request 0, Sleep 0.1]
   \<and> fst (geocode_postcode (answers (Match (51.5010, -0.1419)) Raises)
        (run [always Raises, always Raises, always Raises, always Raises, always Raises] init))
       = Some (51.5010, -0.1419)"
  using both_disabled_recovery
    [of "run [always Raises, always Raises, always Raises, always Raises, always Raises] init"
        "answers (Match (51.5010, -0.1419)) Raises"]
  by (simp add: eval_defs)

text \<open>
  C3. After a call of \<open>geocode_postcode\<close> that returns coordinates, \<open>current_api\<close>
  is not the service that produced them. The service that produced them is the last
  one asked in the call, its answer was the match returned, and \<open>current_api\<close> is the
  other index; this holds for the primary and for the fallback attempt alike.
\<close>

theorem rotation_after_success:
  assumes "well_formed g" "fst (geocode_postcode resp g) = Some c"
  shows "requests (call_events resp g) \<noteq> []
    \<and> resp (last (requests (call_events resp g))) = Match c
    \<and> current_api (snd (geocode_postcode resp g)) = 1 - last (requests (call_events resp g))
    \<and> current_api (snd (geocode_postcode resp g)) \<noteq> last (requests (call_events resp g))"
proof -
  have "current_api g = 0 \<or> current_api g = 1" using assms(1) by (rule wf_api)
  then show ?thesis using assms(2)
    by (cases rule: call_cases)
      (auto simp: call_simps events_simps state_simps outcome_Some
        split: option.splits if_splits)
qed

theorem rotation_after_success_witness:
  "well_formed init
   \<and> fst (geocode_postcode (answers Raises (Match (51.5, -0.14))) init) = Some (51.5, -0.14)
   \<and> requests (call_events (answers Raises (Match (51.5, -0.14))) init) = [0, 1]
   \<and> current_api (snd (geocode_postcode (answers Raises (Match (51.5, -0.14))) init)) = 0"
  using rotation_after_success [of init "answers Raises (Match (51.5, -0.14))" "(51.5, -0.14)"]
  by (auto simp: eval_defs well_formed_def)

text \<open>
  C4. When the answer of the primary service (the first of the pair chosen after the
  services were enabled again) is a match, the call returns its coordinates, the primary
  service is the only one asked, and the fallback service is not asked.
\<close>

theorem no_fallback_after_primary_success:
  assumes "well_formed g" "resp (fst (api_order (reenable g))) = Match c"
  shows "fst (geocode_postcode resp g) = Some c
    \<and> requests (call_events resp g) = [fst (api_order (reenable g))]
    \<and> snd (api_order (reenable g)) \<notin> set (requests (call_events resp g))"
proof -
  have "current_api g = 0 \<or> current_api g = 1" using assms(1) by (rule wf_api)
  then show ?thesis using assms(2)
    by (cases rule: call_cases)
      (auto simp: call_simps events_simps state_simps api_order_def outcome_Some
        split: option.splits if_splits)
qed

theorem no_fallback_after_primary_success_witness:
  "well_formed init
   \<and> answers (Match (51.5010, -0.1419)) Raises (fst (api_order (reenable init)))
       = Match (51.5010, -0.1419)
   \<and> fst (geocode_postcode (answers (Match (51.5010, -0.1419)) Raises) init)
       = Some (51.5010, -0.1419)
   \<and> requests (call_events (answers (Match (51.5010, -0.1419)) Raises) init) = [0]
   \<and> snd (api_order (reenable init)) = 1"
  using no_fallback_after_primary_success
    [of init "answers (Match (51.5010, -0.1419)) Raises" "(51.5010, -0.1419)"]
  by (auto simp: eval_defs well_formed_def)

text \<open>
  C5. When the service named by \<open>current_api\<close> is disabled and the other one is not,
  the first thing the call does is to ask the other one.
\<close>

theorem healthy_service_first:
  assumes "well_formed g" "the (api_disabled g (current_api g))"
    "\<not> the (api_disabled g (1 - current_api g))"
  shows "(\<exists>es. call_events resp g = Request (1 - current_api g) # es)
    \<and> hd (requests (call_events resp g)) = 1 - current_api g"
proof -
  have "current_api g = 0 \<or> current_api g = 1" using assms(1) by (rule wf_api)
  then show ?thesis using assms(2,3)
    by (cases rule: call_cases)
      (auto simp: call_simps events_simps state_simps reenable_def outcome_Some
        split: option.splits if_splits)
qed

theorem healthy_service_first_witness:
  "well_formed (init\<lparr>api_disabled := [0 \<mapsto> True, 1 \<mapsto> False], failure_counts := [0 \<mapsto> 5, 1 \<mapsto> 0]\<rparr>)
   \<and> call_events (always Raises)
        (init\<lparr>api_disabled := [0 \<mapsto> True, 1 \<mapsto> False], failure_counts := [0 \<mapsto> 5, 1 \<mapsto> 0]\<rparr>)
       = [Request 1]"
  using healthy_service_first
    [of "init\<lparr>api_disabled := [0 \<mapsto> True, 1 \<mapsto> False], failure_counts := [0 \<mapsto> 5, 1 \<mapsto> 0]\<rparr>"
        "always Raises"]
  by (auto simp: eval_defs well_formed_def)

text \<open>
  C6. A request function that returns coordinates leaves the failure count of its
  service at 0, whatever the count was before. The same holds after a call of
  \<open>geocode_postcode\<close> that returns coordinates, for the service asked last.
\<close>

theorem success_resets_failure_count:
  "(fst (geocode_postcodes_io r g) = Some c
      \<longrightarrow> failure_counts (snd (geocode_postcodes_io r g)) 0 = Some 0)
   \<and> (fst (geocode_nominatim r g) = Some c
      \<longrightarrow> failure_counts (snd (geocode_nominatim r g)) 1 = Some 0)
   \<and> (well_formed g \<and> fst (geocode_postcode resp g) = Some c
      \<longrightarrow> failure_counts (snd (geocode_postcode resp g)) (last (requests (call_events resp g)))
           = Some 0)"
proof -
  have io: "failure_counts (snd (geocode_postcodes_io r g)) 0 = Some 0"
    if "outcome r = Some c" for r g c
    using that by (cases r) (simp_all add: request_defs Let_def)
  have nom: "failure_counts (snd (geocode_nominatim r g)) 1 = Some 0"
    if "outcome r = Some c" for r g c
    using that by (cases r) (simp_all add: request_defs Let_def)
  have "failure_counts (snd (geocode_postcode resp g)) (last (requests (call_events resp g)))
      = Some 0"
    if "well_formed g" "fst (geocode_postcode resp g) = Some c"
  proof -
    have "current_api g = 0 \<or> current_api g = 1" using that(1) by (rule wf_api)
    then show ?thesis using that(2)
      by (cases rule: call_cases)
        (auto simp: call_simps events_simps state_simps io nom
          split: option.splits if_splits)
  qed
  then show ?thesis
    using io [of r c g] nom [of r c g]
    by (simp add: postcodes_io_fst nominatim_fst)
qed

theorem success_resets_failure_count_witness:
  "fst (geocode_postcodes_io (Match (51.5, -0.14)) (init\<lparr>failure_counts := [0 \<mapsto> 4, 1 \<mapsto> 3]\<rparr>))
     = Some (51.5, -0.14)
   \<and> failure_counts (snd (geocode_postcodes_io (Match (51.5, -0.14))
        (init\<lparr>failure_counts := [0 \<mapsto> 4, 1 \<mapsto> 3]\<rparr>))) 0 = Some 0
   \<and> fst (geocode_nominatim (Match (51.5, -0.14)) (init\<lparr>failure_counts := [0 \<mapsto> 4, 1 \<mapsto> 3]\<rparr>))
     = Some (51.5, -0.14)
   \<and> failure_counts (snd (geocode_nominatim (Match (51.5, -0.14))
        (init\<lparr>failure_counts := [0 \<mapsto> 4, 1 \<mapsto> 3]\<rparr>))) 1 = Some 0
   \<and> fst (geocode_postcode (answers Raises (Match (51.5, -0.14)))
        (init\<lparr>failure_counts := [0 \<mapsto> 4, 1 \<mapsto> 3]\<rparr>)) = Some (51.5, -0.14)
   \<and> failure_counts (snd (geocode_postcode (answers Raises (Match (51.5, -0.14)))
        (init\<lparr>failure_counts := [0 \<mapsto> 4, 1 \<mapsto> 3]\<rparr>))) 1 = Some 0"
  using success_resets_failure_count
    [of "Match (51.5, -0.14)" "init\<lparr>failure_counts := [0 \<mapsto> 4, 1 \<mapsto> 3]\<rparr>" "(51.5, -0.14)"
        "answers Raises (Match (51.5, -0.14))"]
  by (auto simp: eval_defs well_formed_def)

text \<open>
  C7. In every reachable state a disabled service has a failure count of at least 5.
  A disabled service is still disabled after any run of calls none of which starts
  with both services disabled: nothing but that reset sets the flag to False.
\<close>

theorem disabled_until_reset:
  assumes "reachable g" "P = 0 \<or> P = 1"
  shows "(the (api_disabled g P) \<longrightarrow> 5 \<le> the (failure_counts g P))
    \<and> (the (api_disabled g P) \<and> no_reset rs g \<longrightarrow> the (api_disabled (run rs g) P))"
proof -
  have ok: "well_formed g" "counts_ok g" using assms(1) by (simp_all add: reachable_ok)
  have "the (api_disabled g P) \<longrightarrow> 5 \<le> the (failure_counts g P)"
    using ok(2) assms(2) by (auto simp: counts_ok_def)
  moreover have "the (api_disabled (run rs g) P)" if "the (api_disabled g P)" "no_reset rs g"
    using ok(1) assms(2) that by (rule disabled_run)
  ultimately show ?thesis by blast
qed

theorem disabled_until_reset_witness:
  "the (api_disabled (run [answers Raises (Match (51.5, -0.14)),
        answers Raises (Match (51.5, -0.14)), answers Raises (Match (51.5, -0.14)),
        answers Raises (Match (51.5, -0.14)), answers Raises (Match (51.5, -0.14))] init) 0)
   \<and> the (failure_counts (run [answers Raises (Match (51.5, -0.14)),
        answers Raises (Match (51.5, -0.14)), answers Raises (Match (51.5, -0.14)),
        answers Raises (Match (51.5, -0.14)), answers Raises (Match (51.5, -0.14))] init) 0) = 5
   \<and> no_reset [always (Match (51.5, -0.14)), always No_match]
        (run [answers Raises (Match (51.5, -0.14)),
        answers Raises (Match (51.5, -0.14)), answers Raises (Match (51.5, -0.14)),
        answers Raises (Match (51.5, -0.14)), answers Raises (Match (51.5, -0.14))] init)
   \<and> the (api_disabled (run [always (Match (51.5, -0.14)), always No_match]
        (run [answers Raises (Match (51.5, -0.14)),
        answers Raises (Match (51.5, -0.14)), answers Raises (Match (51.5, -0.14)),
        answers Raises (Match (51.5, -0.14)), answers Raises (Match (51.5, -0.14))] init)) 0)"
  using disabled_until_reset [OF reachable_run [OF reachable_init], of 0
      "[answers Raises (Match (51.5, -0.14)),
        answers Raises (Match (51.5, -0.14)), answers Raises (Match (51.5, -0.14)),
        answers Raises (Match (51.5, -0.14)), answers Raises (Match (51.5, -0.14))]"
      "[always (Match (51.5, -0.14)), always No_match]"]
  by (simp add: eval_defs)

text \<open>
  C8, as amended. An empty response makes the request function return \<open>None\<close> and
  changes nothing but the trace: the failure count and the flag of the service stay
  as they were. So does a whole call of \<open>geocode_postcode\<close> in which the service
  answers with an empty response, unless the call starts with both services disabled.
  The call goes on as after any request without coordinates. When the primary
  service answers with an empty response, the fallback service is asked next unless
  it is disabled, and the call returns what the fallback returns, or \<open>None\<close> if the
  fallback is disabled. When the fallback service answers with an empty response
  after a primary attempt without coordinates, the call returns \<open>None\<close>. A call that
  returns \<open>None\<close> leaves \<open>current_api\<close> at the other index.
\<close>

theorem empty_response_not_counted:
  "geocode_nominatim No_match g = (None, g\<lparr>trace := trace g @ [Request 1]\<rparr>)
   \<and> geocode_postcodes_io No_match g = (None, g\<lparr>trace := trace g @ [Request 0]\<rparr>)
   \<and> (well_formed g \<and> (P = 0 \<or> P = 1) \<and> resp P = No_match
        \<and> \<not> (the (api_disabled g 0) \<and> the (api_disabled g 1))
      \<longrightarrow> failure_counts (snd (geocode_postcode resp g)) P = failure_counts g P
        \<and> api_disabled (snd (geocode_postcode resp g)) P = api_disabled g P)
   \<and> (well_formed g \<and> resp (fst (api_order (reenable g))) = No_match
      \<longrightarrow> requests (call_events resp g)
           = (if the (api_disabled (reenable g) (snd (api_order (reenable g))))
              then [fst (api_order (reenable g))]
              else [fst (api_order (reenable g)), snd (api_order (reenable g))])
        \<and> fst (geocode_postcode resp g)
           = (if the (api_disabled (reenable g) (snd (api_order (reenable g)))) then None
              else outcome (resp (snd (api_order (reenable g))))))
   \<and> (well_formed g \<and> outcome (resp (fst (api_order (reenable g)))) = None
        \<and> resp (snd (api_order (reenable g))) = No_match
      \<longrightarrow> fst (geocode_postcode resp g) = None)
   \<and> (well_formed g \<and> fst (geocode_postcode resp g) = None
      \<longrightarrow> current_api (snd (geocode_postcode resp g)) = 1 - current_api g)"
proof -
  have keep: "failure_counts (snd (geocode_postcode resp g)) P = failure_counts g P
      \<and> api_disabled (snd (geocode_postcode resp g)) P = api_disabled g P"
    if wf: "well_formed g" and P: "P = 0 \<or> P = 1" and r: "resp P = No_match"
      and nb: "\<not> (the (api_disabled g 0) \<and> the (api_disabled g 1))"
  proof -
    have id: "reenable g = g" using nb by (rule reenable_id)
    have api: "current_api g = 0 \<or> current_api g = 1" using wf by (rule wf_api)
    from P show ?thesis
    proof
      assume "P = 0"
      then have "resp 0 = No_match" "outcome (resp 0) = None" using r by simp_all
      with api \<open>P = 0\<close> show ?thesis
        by (cases rule: call_cases)
          (simp_all add: id call_simps state_simps no_match_fields split: option.split)
    next
      assume "P = 1"
      then have "resp 1 = No_match" "outcome (resp 1) = None" using r by simp_all
      with api \<open>P = 1\<close> show ?thesis
        by (cases rule: call_cases)
          (simp_all add: id call_simps state_simps no_match_fields split: option.split)
    qed
  qed
  have primary: "requests (call_events resp g)
           = (if the (api_disabled (reenable g) (snd (api_order (reenable g))))
              then [fst (api_order (reenable g))]
              else [fst (api_order (reenable g)), snd (api_order (reenable g))])
        \<and> fst (geocode_postcode resp g)
           = (if the (api_disabled (reenable g) (snd (api_order (reenable g)))) then None
              else outcome (resp (snd (api_order (reenable g)))))"
    if wf: "well_formed g" and r: "resp (fst (api_order (reenable g))) = No_match"
  proof -
    have "current_api g = 0 \<or> current_api g = 1" using wf by (rule wf_api)
    then show ?thesis using r
      by (cases rule: call_cases)
        (auto simp: call_simps events_simps api_order_def split: option.split)
  qed
  have fallback: "fst (geocode_postcode resp g) = None"
    if wf: "well_formed g" and p: "outcome (resp (fst (api_order (reenable g)))) = None"
      and r: "resp (snd (api_order (reenable g))) = No_match"
  proof -
    have "current_api g = 0 \<or> current_api g = 1" using wf by (rule wf_api)
    then show ?thesis using p r
      by (cases rule: call_cases) (auto simp: call_simps api_order_def)
  qed
  have rotate: "current_api (snd (geocode_postcode resp g)) = 1 - current_api g"
    if wf: "well_formed g" and n: "fst (geocode_postcode resp g) = None"
  proof -
    have "current_api g = 0 \<or> current_api g = 1" using wf by (rule wf_api)
    then show ?thesis using n
      by (cases rule: call_cases)
        (auto simp: call_simps reenable_fields split: option.splits if_splits)
  qed
  have req: "geocode_nominatim No_match g = (None, g\<lparr>trace := trace g @ [Request 1]\<rparr>)"
    "geocode_postcodes_io No_match g = (None, g\<lparr>trace := trace g @ [Request 0]\<rparr>)"
    by (simp_all add: request_defs)
  show ?thesis
    using req keep primary fallback rotate by blast
qed

theorem empty_response_not_counted_witness:
  "well_formed init
   \<and> failure_counts (snd (geocode_postcode (answers Raises No_match)
        (run [always Raises, always Raises, always Raises, always Raises] init))) 1 = Some 4
   \<and> api_disabled (snd (geocode_postcode (answers Raises No_match)
        (run [always Raises, always Raises, always Raises, always Raises] init))) 1 = Some False
   \<and> requests (call_events (answers Raises No_match)
        (run [always Raises, always Raises, always Raises, always Raises] init)) = [0, 1]
   \<and> fst (geocode_postcode (answers Raises No_match)
        (run [always Raises, always Raises, always Raises, always Raises] init)) = None
   \<and> current_api (run [always Raises, always Raises, always Raises, always Raises] init) = 0
   \<and> current_api (snd (geocode_postcode (answers Raises No_match)
        (run [always Raises, always Raises, always Raises, always Raises] init))) = 1
   \<and> requests (call_events (answers No_match (Match (51.5, -0.14)))
        (run [always Raises, always Raises, always Raises, always Raises] init)) = [0, 1]
   \<and> fst (geocode_postcode (answers No_match (Match (51.5, -0.14)))
        (run [always Raises, always Raises, always Raises, always Raises] init))
       = Some (51.5, -0.14)
   \<and> failure_counts (snd (geocode_postcode (answers No_match (Match (51.5, -0.14)))
        (run [always Raises, always Raises, always Raises, always Raises] init))) 0 = Some 4"
  using empty_response_not_counted
    [of "run [always Raises, always Raises, always Raises, always Raises] init" 1
        "answers Raises No_match"]
    empty_response_not_counted
    [of "run [always Raises, always Raises, always Raises, always Raises] init" 0
        "answers No_match (Match (51.5, -0.14))"]
    wf_run [OF well_formed_init, of "[always Raises, always Raises, always Raises, always Raises]"]
    well_formed_init
  by (simp add: eval_defs)

text \<open>
  C8, as stated, fails. After four calls in which both services raise, the failure
  count of Nominatim is 4. An empty response then returns \<open>None\<close> and leaves the count
  at 4 and the service enabled, where a request that raises takes the count to 5 and
  disables the service.
\<close>

theorem empty_response_counterexample:
  "fst (geocode_nominatim No_match
      (run [always Raises, always Raises, always Raises, always Raises] init)) = None
   \<and> failure_counts (snd (geocode_nominatim No_match
      (run [always Raises, always Raises, always Raises, always Raises] init))) 1 = Some 4
   \<and> api_disabled (snd (geocode_nominatim No_match
      (run [always Raises, always Raises, always Raises, always Raises] init))) 1 = Some False
   \<and> failure_counts (snd (geocode_nominatim Raises
      (run [always Raises, always Raises, always Raises, always Raises] init))) 1 = Some 5
   \<and> api_disabled (snd (geocode_nominatim Raises
      (run [always Raises, always Raises, always Raises, always Raises] init))) 1 = Some True"
  by (simp add: eval_defs)

text \<open>
  C9. The code breaks this claim. In two calls in which both services raise, the
  first call asks Nominatim as the fallback, after a pause of 0.7 seconds, and the
  second call asks it as the primary service at once: the two requests to Nominatim
  follow each other with no pause between them.
\<close>

theorem nominatim_asked_without_pause:
  "trace (run [always Raises, always Raises] init)
     = [Request 0, Sleep 0.7, Request 1, Request 1, Request 0]
   \<and> \<not> pause_before 0.7 (trace (run [always Raises, always Raises] init))"
  by (simp add: eval_defs)

text \<open>
  C10. In every reachable state the failure count of a service is at most 5, and a
  service whose count is 5 is disabled. One call asks a service at most once, and
  does not ask a disabled service unless it starts with both services disabled.
\<close>

theorem failure_count_bounded:
  assumes "reachable g" "P = 0 \<or> P = 1"
  shows "the (failure_counts g P) \<le> 5
    \<and> (the (failure_counts g P) = 5 \<longrightarrow> the (api_disabled g P))
    \<and> count_list (requests (call_events resp g)) P \<le> 1
    \<and> (the (api_disabled g P) \<and> \<not> (the (api_disabled g 0) \<and> the (api_disabled g 1))
        \<longrightarrow> P \<notin> set (requests (call_events resp g)))"
proof -
  have ok: "well_formed g" "counts_ok g" using assms(1) by (simp_all add: reachable_ok)
  have api: "current_api g = 0 \<or> current_api g = 1" using ok(1) by (rule wf_api)
  have "the (failure_counts g P) \<le> 5"
    and "the (failure_counts g P) = 5 \<longrightarrow> the (api_disabled g P)"
    using ok(2) assms(2) by (auto simp: counts_ok_def)
  moreover have "count_list (requests (call_events resp g)) P \<le> 1"
    using api by (rule asked_once)
  moreover have "P \<notin> set (requests (call_events resp g))"
    if "the (api_disabled g P)" "\<not> (the (api_disabled g 0) \<and> the (api_disabled g 1))"
    using api assms(2) that by (rule disabled_not_asked)
  ultimately show ?thesis by blast
qed

theorem failure_count_bounded_witness:
  "the (failure_counts (run [answers Raises (Match (51.5, -0.14)),
        answers Raises (Match (51.5, -0.14)), answers Raises (Match (51.5, -0.14)),
        answers Raises (Match (51.5, -0.14)), answers Raises (Match (51.5, -0.14)),
        answers Raises (Match (51.5, -0.14))] init) 0) = 5
   \<and> the (api_disabled (run [answers Raises (Match (51.5, -0.14)),
        answers Raises (Match (51.5, -0.14)), answers Raises (Match (51.5, -0.14)),
        answers Raises (Match (51.5, -0.14)), answers Raises (Match (51.5, -0.14)),
        answers Raises (Match (51.5, -0.14))] init) 0)
   \<and> \<not> the (api_disabled (run [answers Raises (Match (51.5, -0.14)),
        answers Raises (Match (51.5, -0.14)), answers Raises (Match (51.5, -0.14)),
        answers Raises (Match (51.5, -0.14)), answers Raises (Match (51.5, -0.14)),
        answers Raises (Match (51.5, -0.14))] init) 1)
   \<and> requests (call_events (always Raises) (run [answers Raises (Match (51.5, -0.14)),
        answers Raises (Match (51.5, -0.14)), answers Raises (Match (51.5, -0.14)),
        answers Raises (Match (51.5, -0.14)), answers Raises (Match (51.5, -0.14)),
        answers Raises (Match (51.5, -0.14))] init)) = [1]"
  using failure_count_bounded [OF reachable_run [OF reachable_init], of 0
      "[answers Raises (Match (51.5, -0.14)),
        answers Raises (Match (51.5, -0.14)), answers Raises (Match (51.5, -0.14)),
        answers Raises (Match (51.5, -0.14)), answers Raises (Match (51.5, -0.14)),
        answers Raises (Match (51.5, -0.14))]" "always Raises"]
  by (simp add: eval_defs)

end
